theory Spec2Isabelle
  imports Main
begin

section \<open>Data model\<close>

text \<open>
  A shallow embedding of the tipset model (\<^verbatim>\<open>core/primitives/tipset/tipset.cpp\<close>), of the
  request handlers of the node API that walk tipsets (\<^verbatim>\<open>core/api/make.cpp\<close>) and of the
  retrieval query responder
  (\<^verbatim>\<open>core/markets/retrieval/provider/query_responder/query_responder_impl.cpp\<close>).

  A CID and every byte string is a list of byte values. Unsigned 64-bit quantities
  (heights, timestamps) are natural numbers: the code only compares them. A
  \<^verbatim>\<open>ChainEpoch\<close> is a signed 64-bit integer, modelled as an \<open>int\<close> in that range;
  a cast to \<^verbatim>\<open>uint64_t\<close> (\<open>to_uint64\<close>) and the wrap-around of its arithmetic
  (\<open>to_int64\<close>) are written out where they happen.
\<close>

type_synonym bytes = "nat list"
type_synonym CID = "nat list"
type_synonym Ticket = bytes
type_synonym TipsetHash = bytes

datatype TipsetError =
    NO_BLOCKS
  | MISMATCHING_HEIGHTS
  | MISMATCHING_PARENTS
  | TICKET_HAS_NO_VALUE
  | TICKETS_COLLISION
  | BLOCK_ORDER_FAILURE

text \<open>
  Every way a modelled function can fail. \<open>TipsetErr\<close>, \<open>TodoError\<close> and
  \<open>VMExitCodeError\<close> are error codes of the three categories the code names;
  \<open>OtherError\<close> stands for the error codes of the collaborators (store misses, decode
  failures, ...), told apart by a number. \<open>CodecFailure\<close> is a failed CBOR encoding or
  hashing step. The last three are not error returns at all: \<open>bad_optional_access\<close> is
  the exception \<^verbatim>\<open>boost::optional::value()\<close> throws on an empty optional,
  \<open>OUT_OF_RANGE\<close> marks an unchecked \<^verbatim>\<open>operator[]\<close> read past the end of a vector
  (undefined behaviour in C++, where the model stops), and \<open>ASSERTION_FAILED\<close> a failed
  \<^verbatim>\<open>BOOST_ASSERT_MSG\<close>.
\<close>

datatype error =
    TipsetErr TipsetError
  | TodoError
  | VMExitCodeError int
  | OtherError nat
  | CodecFailure
  | bad_optional_access
  | OUT_OF_RANGE
  | ASSERTION_FAILED

record BlockHeader =
  miner :: nat
  ticket :: "Ticket option"
  parents :: "CID list"
  parent_weight :: int
  height :: nat
  parent_state_root :: CID
  parent_message_receipts :: CID
  messages :: CID
  timestamp :: nat

record TipsetKey =
  cids :: "CID list"
  hash :: TipsetHash

record Tipset =
  key :: TipsetKey
  blks :: "BlockHeader list"

text \<open>
  The private state of a \<^verbatim>\<open>TipsetCreator\<close>: its vectors \<^verbatim>\<open>blks_\<close> and
  \<^verbatim>\<open>cids_\<close> (an Isabelle name cannot end in an underscore).
\<close>

record TipsetCreator =
  creator_blks :: "BlockHeader list"
  creator_cids :: "CID list"

text \<open>
  Three functions the tipset code calls are declared outside the sources at hand and are
  parameters of the model throughout:
  \<^item> \<open>cmp\<close> is \<^verbatim>\<open>ticket::compare\<close>, a three-way comparison of two tickets;
  \<^item> \<open>cidOf\<close> is \<^verbatim>\<open>getCidOfCbor\<close> on a block header, \<open>None\<close> when encoding fails;
  \<^item> \<open>hashOf\<close> is the hash \<^verbatim>\<open>TipsetKey::create\<close> computes from the CIDs, \<open>None\<close> when
    it fails.
\<close>

type_synonym compare_fn = "Ticket \<Rightarrow> Ticket \<Rightarrow> int"
type_synonym cid_fn = "BlockHeader \<Rightarrow> CID option"
type_synonym hash_fn = "CID list \<Rightarrow> TipsetHash option"

section \<open>The tipset creator\<close>

text \<open>The default-constructed \<^verbatim>\<open>TipsetKey()\<close>, \<^verbatim>\<open>Tipset{}\<close> and \<^verbatim>\<open>TipsetCreator\<close>.\<close>

definition TipsetKey_default :: TipsetKey where
  "TipsetKey_default = \<lparr>cids = [], hash = []\<rparr>"

definition Tipset_default :: Tipset where
  "Tipset_default = \<lparr>key = TipsetKey_default, blks = []\<rparr>"

definition TipsetCreator_new :: TipsetCreator where
  "TipsetCreator_new = \<lparr>creator_blks = [], creator_cids = []\<rparr>"

definition TipsetKey_create :: "hash_fn \<Rightarrow> CID list \<Rightarrow> error + TipsetKey" where
  "TipsetKey_create hashOf cs =
     (case hashOf cs of
        None \<Rightarrow> Inl CodecFailure
      | Some h \<Rightarrow> Inr \<lparr>cids = cs, hash = h\<rparr>)"

definition canExpandTipset :: "TipsetCreator \<Rightarrow> BlockHeader \<Rightarrow> error + unit" where
  "canExpandTipset c hdr =
     (case creator_blks c of
        [] \<Rightarrow> Inr ()
      | first_block # _ \<Rightarrow>
          if ticket hdr = None then Inl (TipsetErr TICKET_HAS_NO_VALUE)
          else if height hdr \<noteq> height first_block then Inl (TipsetErr MISMATCHING_HEIGHTS)
          else if parents hdr \<noteq> parents first_block then Inl (TipsetErr MISMATCHING_PARENTS)
          else Inr ())"

text \<open>
  The \<^verbatim>\<open>for\<close> loop of \<^verbatim>\<open>expandTipset(cid, hdr)\<close>: the iterator and \<^verbatim>\<open>idx\<close>
  advance together, so the position \<^verbatim>\<open>idx\<close> stands for both. The loop steps over
  a block when \<^verbatim>\<open>compare(ticket, it->ticket.value())\<close> is negative, stops at a block
  where it is positive and fails where it is zero. \<open>bs\<close> is what is left of
  \<^verbatim>\<open>blks_\<close> from the iterator on.
\<close>

fun expand_scan :: "compare_fn \<Rightarrow> Ticket \<Rightarrow> BlockHeader list \<Rightarrow> nat \<Rightarrow> error + nat" where
  "expand_scan cmp t [] idx = Inr idx"
| "expand_scan cmp t (b # bs) idx =
     (case ticket b of
        None \<Rightarrow> Inl bad_optional_access
      | Some tb \<Rightarrow>
          if cmp t tb = 0 then Inl (TipsetErr TICKETS_COLLISION)
          else if cmp t tb < 0 then expand_scan cmp t bs (idx + 1)
          else Inr idx)"

definition insert_at :: "nat \<Rightarrow> 'a \<Rightarrow> 'a list \<Rightarrow> 'a list" where
  "insert_at idx x xs = take idx xs @ x # drop idx xs"

text \<open>
  \<^verbatim>\<open>expandTipset(cid, hdr)\<close>. After the loop the code tests \<^verbatim>\<open>++it == blks_.end()\<close>:
  the incremented iterator is the end exactly when the loop stopped at the last block,
  \<open>idx + 1 = length (creator_blks c)\<close>. When the loop ran off the end, the iterator is
  already the end and the increment moves it past: it then differs from the end, the
  \<^verbatim>\<open>else\<close>
  branch runs and inserts at \<open>idx = length (creator_blks c)\<close>, which appends; so both
  branches append there. The \<^verbatim>\<open>assert\<close> at the top states the caller's duty to call
  \<^verbatim>\<open>canExpandTipset\<close> first, as \<^verbatim>\<open>Tipset::create\<close> does; what is left of it in the
  model is that \<^verbatim>\<open>hdr.ticket.value()\<close> throws on a header without a ticket.
\<close>

definition expandTipset_cid ::
  "compare_fn \<Rightarrow> TipsetCreator \<Rightarrow> CID \<Rightarrow> BlockHeader \<Rightarrow> error + TipsetCreator" where
  "expandTipset_cid cmp c cid hdr =
     (if creator_blks c = [] then Inr \<lparr>creator_blks = [hdr], creator_cids = [cid]\<rparr>
      else case ticket hdr of
        None \<Rightarrow> Inl bad_optional_access
      | Some t \<Rightarrow>
          (case expand_scan cmp t (creator_blks c) 0 of
             Inl e \<Rightarrow> Inl e
           | Inr idx \<Rightarrow>
               if idx + 1 = length (creator_blks c)
               then Inr \<lparr>creator_blks = creator_blks c @ [hdr], creator_cids = creator_cids c @ [cid]\<rparr>
               else Inr \<lparr>creator_blks = insert_at idx hdr (creator_blks c),
                         creator_cids = insert_at idx cid (creator_cids c)\<rparr>))"

text \<open>\<^verbatim>\<open>expandTipset(hdr)\<close>: computes the CID, then expands.\<close>

definition expandTipset ::
  "compare_fn \<Rightarrow> cid_fn \<Rightarrow> TipsetCreator \<Rightarrow> BlockHeader \<Rightarrow> error + TipsetCreator" where
  "expandTipset cmp cidOf c hdr =
     (case cidOf hdr of
        None \<Rightarrow> Inl CodecFailure
      | Some cid \<Rightarrow> expandTipset_cid cmp c cid hdr)"

text \<open>
  \<^verbatim>\<open>getTipset(clear)\<close>. Both branches build the same tipset; \<^verbatim>\<open>clear\<close> only decides
  whether the creator's vectors are moved out, which no caller modelled here observes.
  A failing \<^verbatim>\<open>TipsetKey::create\<close> is thrown by \<^verbatim>\<open>OUTCOME_EXCEPT\<close>; the model
  returns it as the error.
\<close>

definition getTipset :: "hash_fn \<Rightarrow> TipsetCreator \<Rightarrow> bool \<Rightarrow> error + Tipset" where
  "getTipset hashOf c clear =
     (if creator_blks c = [] then Inr Tipset_default
      else case TipsetKey_create hashOf (creator_cids c) of
        Inl e \<Rightarrow> Inl e
      | Inr k \<Rightarrow> Inr \<lparr>key = k, blks = creator_blks c\<rparr>)"

text \<open>The loop of \<^verbatim>\<open>Tipset::create(std::vector<BlockHeader>)\<close>.\<close>

fun create_loop ::
  "compare_fn \<Rightarrow> cid_fn \<Rightarrow> TipsetCreator \<Rightarrow> BlockHeader list \<Rightarrow> error + TipsetCreator" where
  "create_loop cmp cidOf c [] = Inr c"
| "create_loop cmp cidOf c (hdr # rest) =
     (case canExpandTipset c hdr of
        Inl e \<Rightarrow> Inl e
      | Inr _ \<Rightarrow>
          (case expandTipset cmp cidOf c hdr of
             Inl e \<Rightarrow> Inl e
           | Inr c' \<Rightarrow> create_loop cmp cidOf c' rest))"

definition create :: "compare_fn \<Rightarrow> cid_fn \<Rightarrow> hash_fn \<Rightarrow> BlockHeader list \<Rightarrow> error + Tipset" where
  "create cmp cidOf hashOf blocks =
     (case create_loop cmp cidOf TipsetCreator_new blocks of
        Inl e \<Rightarrow> Inl e
      | Inr c \<Rightarrow> getTipset hashOf c True)"

text \<open>
  \<^verbatim>\<open>Tipset::create(hash, blocks)\<close>, where a block may be absent: the loop, then the
  comparison of the key's hash with the expected one.
\<close>

fun create_available_loop ::
  "compare_fn \<Rightarrow> cid_fn \<Rightarrow> TipsetCreator \<Rightarrow> BlockHeader option list \<Rightarrow> error + TipsetCreator" where
  "create_available_loop cmp cidOf c [] = Inr c"
| "create_available_loop cmp cidOf c (b # rest) =
     (case b of
        None \<Rightarrow> Inl (TipsetErr NO_BLOCKS)
      | Some hdr \<Rightarrow>
          (case canExpandTipset c hdr of
             Inl e \<Rightarrow> Inl e
           | Inr _ \<Rightarrow>
               (case expandTipset cmp cidOf c hdr of
                  Inl e \<Rightarrow> Inl e
                | Inr c' \<Rightarrow> create_available_loop cmp cidOf c' rest)))"

definition create_available ::
  "compare_fn \<Rightarrow> cid_fn \<Rightarrow> hash_fn \<Rightarrow> TipsetHash \<Rightarrow> BlockHeader option list \<Rightarrow> error + Tipset" where
  "create_available cmp cidOf hashOf h blocks =
     (case create_available_loop cmp cidOf TipsetCreator_new blocks of
        Inl e \<Rightarrow> Inl e
      | Inr c \<Rightarrow>
          (case getTipset hashOf c True of
             Inl e \<Rightarrow> Inl e
           | Inr tipset \<Rightarrow>
               if hash (key tipset) \<noteq> h then Inl (TipsetErr BLOCK_ORDER_FAILURE)
               else Inr tipset))"


text \<open>
  Pairwise distinct tickets, as the creator tests them: the ticket of every later header
  compares non-zero against the ticket of every earlier one.
\<close>

fun distinct_tickets :: "compare_fn \<Rightarrow> BlockHeader list \<Rightarrow> bool" where
  "distinct_tickets cmp [] = True"
| "distinct_tickets cmp (h # rest) =
     ((\<forall>x\<in>set rest. case (ticket x, ticket h) of
                        (Some tx, Some th) \<Rightarrow> cmp tx th \<noteq> 0
                      | _ \<Rightarrow> True)
      \<and> distinct_tickets cmp rest)"

text \<open>
  What the creator keeps true of its two vectors: the CIDs follow the blocks, position
  by position, and all blocks share height and parents.
\<close>

definition creator_inv :: "cid_fn \<Rightarrow> TipsetCreator \<Rightarrow> bool" where
  "creator_inv cidOf c =
     (map cidOf (creator_blks c) = map Some (creator_cids c)
      \<and> (\<forall>a\<in>set (creator_blks c). \<forall>b\<in>set (creator_blks c).
            height a = height b \<and> parents a = parents b))"

section \<open>Loading tipsets from the store\<close>

text \<open>
  The content-addressed store is seen through its typed reads: \<open>ipld\<close> below is
  \<^verbatim>\<open>ipld.getCbor<BlockHeader>\<close>, which fails when the CID is missing or its bytes do
  not decode.
\<close>

type_synonym block_store = "CID \<Rightarrow> error + BlockHeader"

fun load_blocks :: "block_store \<Rightarrow> CID list \<Rightarrow> error + BlockHeader list" where
  "load_blocks ipld [] = Inr []"
| "load_blocks ipld (cid # rest) =
     (case ipld cid of
        Inl e \<Rightarrow> Inl e
      | Inr block \<Rightarrow>
          (case load_blocks ipld rest of
             Inl e \<Rightarrow> Inl e
           | Inr blocks \<Rightarrow> Inr (block # blocks)))"

definition load ::
  "compare_fn \<Rightarrow> cid_fn \<Rightarrow> hash_fn \<Rightarrow> block_store \<Rightarrow> CID list \<Rightarrow> error + Tipset" where
  "load cmp cidOf hashOf ipld cs =
     (case load_blocks ipld cs of
        Inl e \<Rightarrow> Inl e
      | Inr blocks \<Rightarrow> create cmp cidOf hashOf blocks)"

text \<open>\<^verbatim>\<open>loadParent\<close> reads \<^verbatim>\<open>blks[0]\<close> without a guard.\<close>

definition loadParent ::
  "compare_fn \<Rightarrow> cid_fn \<Rightarrow> hash_fn \<Rightarrow> block_store \<Rightarrow> Tipset \<Rightarrow> error + Tipset" where
  "loadParent cmp cidOf hashOf ipld t =
     (case blks t of
        [] \<Rightarrow> Inl OUT_OF_RANGE
      | b # _ \<Rightarrow> load cmp cidOf hashOf ipld (parents b))"

section \<open>Tipset accessors\<close>

text \<open>
  The accessors that test \<^verbatim>\<open>blks.empty()\<close> are total. Those that read
  \<^verbatim>\<open>blks[0]\<close> without a test return \<open>None\<close> on the empty tipset, where the C++ is
  undefined.
\<close>

definition getParents :: "hash_fn \<Rightarrow> Tipset \<Rightarrow> error + TipsetKey" where
  "getParents hashOf t =
     (case blks t of
        [] \<Rightarrow> Inr TipsetKey_default
      | b # _ \<Rightarrow> TipsetKey_create hashOf (parents b))"

definition getMinTimestamp :: "Tipset \<Rightarrow> nat" where
  "getMinTimestamp t =
     (case blks t of
        [] \<Rightarrow> 0
      | b # bs \<Rightarrow> fold (\<lambda>x m. min m (timestamp x)) bs (timestamp b))"

definition getMinTicketBlock :: "Tipset \<Rightarrow> BlockHeader option" where
  "getMinTicketBlock t = (case blks t of [] \<Rightarrow> None | b # _ \<Rightarrow> Some b)"

definition getParentStateRoot :: "Tipset \<Rightarrow> CID option" where
  "getParentStateRoot t = (case blks t of [] \<Rightarrow> None | b # _ \<Rightarrow> Some (parent_state_root b))"

definition getParentWeight :: "Tipset \<Rightarrow> int" where
  "getParentWeight t = (case blks t of [] \<Rightarrow> 0 | b # _ \<Rightarrow> parent_weight b)"

definition getParentMessageReceipts :: "Tipset \<Rightarrow> CID option" where
  "getParentMessageReceipts t =
     (case blks t of [] \<Rightarrow> None | b # _ \<Rightarrow> Some (parent_message_receipts b))"

text \<open>\<^verbatim>\<open>Tipset::height()\<close>; the name \<open>height\<close> is the header's field.\<close>

definition Tipset_height :: "Tipset \<Rightarrow> nat" where
  "Tipset_height t = (case blks t of [] \<Rightarrow> 0 | b # _ \<Rightarrow> height b)"


section \<open>The node API\<close>

text \<open>
  \<^verbatim>\<open>makeImpl\<close> closes its handlers over the collaborators of the node. \<open>Node\<close> holds
  what the handlers modelled here use of them, each as the function it is called as:
  the heaviest tipset of the chain store, the typed reads of the store, the interpreter
  (\<open>interpreter n ts\<close> is \<^verbatim>\<open>interpreter->interpret(ipld, ts)\<close>),
  and the three functions of the tipset code.

  \<^verbatim>\<open>make.cpp\<close> reads \<^verbatim>\<open>tipset.height\<close> and \<^verbatim>\<open>tipset_key.cids\<close> as fields; they
  are \<open>Tipset_height\<close> and \<open>cids\<close> here.
\<close>

record InterpreterResult =
  state_root :: CID
  message_receipts :: CID

record UnsignedMessage =
  msg_to :: nat
  msg_from :: nat
  nonce :: nat
  method_num :: nat
  params :: bytes

record SignedMessage =
  message :: UnsignedMessage
  signature :: bytes

record Node =
  ticket_compare :: compare_fn
  getCidOfCbor :: cid_fn
  tipsetHash :: hash_fn
  getCbor_BlockHeader :: block_store
  getCbor_SignedMessage :: "CID \<Rightarrow> error + SignedMessage"
  getCbor_UnsignedMessage :: "CID \<Rightarrow> error + UnsignedMessage"
  heaviestTipset :: Tipset
  interpreter :: "Tipset \<Rightarrow> error + InterpreterResult"

definition Tipset_load :: "Node \<Rightarrow> CID list \<Rightarrow> error + Tipset" where
  "Tipset_load n cs =
     load (ticket_compare n) (getCidOfCbor n) (tipsetHash n) (getCbor_BlockHeader n) cs"

definition Tipset_loadParent :: "Node \<Rightarrow> Tipset \<Rightarrow> error + Tipset" where
  "Tipset_loadParent n t =
     loadParent (ticket_compare n) (getCidOfCbor n) (tipsetHash n) (getCbor_BlockHeader n) t"

text \<open>
  A \<^verbatim>\<open>TipsetContext\<close>. The state tree is a store handle and a root; the store is the
  node's, so the root stands for the tree.
\<close>

record TipsetContext =
  tipset :: Tipset
  state_tree :: CID
  interpreted :: "InterpreterResult option"

definition tipsetContext :: "Node \<Rightarrow> TipsetKey \<Rightarrow> bool \<Rightarrow> error + TipsetContext" where
  "tipsetContext n tipset_key interp =
     (case (if cids tipset_key = [] then Inr (heaviestTipset n)
            else Tipset_load n (cids tipset_key)) of
        Inl e \<Rightarrow> Inl e
      | Inr ts \<Rightarrow>
          (case getParentStateRoot ts of
             None \<Rightarrow> Inl OUT_OF_RANGE
           | Some root \<Rightarrow>
               if interp then
                 (case interpreter n ts of
                    Inl e \<Rightarrow> Inl e
                  | Inr result \<Rightarrow>
                      Inr \<lparr>tipset = ts, state_tree = state_root result,
                           interpreted = Some result\<rparr>)
               else Inr \<lparr>tipset = ts, state_tree = root, interpreted = None\<rparr>))"

definition kWinningPoStSectorSetLookback :: int where
  "kWinningPoStSectorSetLookback = 10"

text \<open>\<^verbatim>\<open>static_cast<uint64_t>\<close> of a signed 64-bit value.\<close>

definition to_uint64 :: "int \<Rightarrow> nat" where
  "to_uint64 x = nat (x mod 2 ^ 64)"

text \<open>
  The result of an arithmetic operation on \<^verbatim>\<open>ChainEpoch\<close> values, which are signed
  64-bit: the exact result when it is in range, and wrapped around otherwise. (Signed
  overflow is undefined in C++; the compiled subtraction wraps.)
\<close>

definition to_int64 :: "int \<Rightarrow> int" where
  "to_int64 x = (x + 2 ^ 63) mod 2 ^ 64 - 2 ^ 63"

text \<open>
  The \<^verbatim>\<open>while\<close> loop of \<^verbatim>\<open>getLookbackTipSetForRound\<close>. Nothing in the code bounds
  it: a store whose parent links never reach a low enough height keeps it running, and
  the value is then \<open>None\<close>.
\<close>

partial_function (option) lookback_walk :: "Node \<Rightarrow> nat \<Rightarrow> Tipset \<Rightarrow> (error + Tipset) option" where
  "lookback_walk n lookback ts =
     (if Tipset_height ts > lookback then
        (case Tipset_loadParent n ts of
           Inl e \<Rightarrow> Some (Inl e)
         | Inr parent \<Rightarrow> lookback_walk n lookback parent)
      else Some (Inr ts))"

text \<open>
  \<^verbatim>\<open>getLookbackTipSetForRound\<close>. The epoch is a signed 64-bit value, between
  \<open>- (2 ^ 63)\<close> and \<open>2 ^ 63 - 1\<close>, and \<^verbatim>\<open>epoch - kWinningPoStSectorSetLookback\<close> is
  computed in that type: below \<open>- (2 ^ 63) + 10\<close> it wraps to a large positive value.
\<close>

definition getLookbackTipSetForRound ::
  "Node \<Rightarrow> Tipset \<Rightarrow> int \<Rightarrow> (error + TipsetContext) option" where
  "getLookbackTipSetForRound n ts epoch =
     (let lookback = max 0 (to_int64 (epoch - kWinningPoStSectorSetLookback)) in
      case lookback_walk n (to_uint64 lookback) ts of
        None \<Rightarrow> None
      | Some (Inl e) \<Rightarrow> Some (Inl e)
      | Some (Inr ts') \<Rightarrow>
          (case interpreter n ts' of
             Inl e \<Rightarrow> Some (Inl e)
           | Inr result \<Rightarrow>
               Some (Inr \<lparr>tipset = ts', state_tree = state_root result,
                          interpreted = None\<rparr>)))"

text \<open>The \<^verbatim>\<open>while\<close> loop of \<^verbatim>\<open>ChainGetTipSetByHeight\<close>, unbounded in the same way.\<close>

partial_function (option) height_walk :: "Node \<Rightarrow> nat \<Rightarrow> Tipset \<Rightarrow> (error + Tipset) option" where
  "height_walk n h ts =
     (if Tipset_height ts > h then
        (case Tipset_loadParent n ts of
           Inl e \<Rightarrow> Some (Inl e)
         | Inr parent \<Rightarrow>
             if Tipset_height parent < h then Some (Inr ts)
             else height_walk n h parent)
      else Some (Inr ts))"

definition ChainGetTipSetByHeight ::
  "Node \<Rightarrow> int \<Rightarrow> TipsetKey \<Rightarrow> (error + Tipset) option" where
  "ChainGetTipSetByHeight n height2 tipset_key =
     (let h = to_uint64 height2 in
      case tipsetContext n tipset_key False of
        Inl e \<Rightarrow> Some (Inl e)
      | Inr context \<Rightarrow>
          if Tipset_height (tipset context) < h then Some (Inl TodoError)
          else height_walk n h (tipset context))"

definition ChainGetMessage :: "Node \<Rightarrow> CID \<Rightarrow> error + UnsignedMessage" where
  "ChainGetMessage n cid =
     (case getCbor_SignedMessage n cid of
        Inr res \<Rightarrow> Inr (message res)
      | Inl _ \<Rightarrow> getCbor_UnsignedMessage n cid)"


text \<open>
  A list of tipsets is a parent chain of the node when \<^verbatim>\<open>loadParent\<close> takes each
  tipset to the next one.
\<close>

fun parent_chain :: "Node \<Rightarrow> Tipset list \<Rightarrow> bool" where
  "parent_chain n [] = True"
| "parent_chain n [t] = True"
| "parent_chain n (t # p # rest) =
     (Tipset_loadParent n t = Inr p \<and> parent_chain n (p # rest))"

subsection \<open>StateCall\<close>

record MessageReceipt =
  exit_code :: int
  return_value :: bytes
  gas_used :: int

record InvocResult =
  invoc_message :: UnsignedMessage
  receipt :: MessageReceipt

definition kOk :: int where
  "kOk = 0"

text \<open>
  \<^verbatim>\<open>StateCall\<close>. Two more parameters: \<open>applyImplicitMessage ts m\<close> is
  \<^verbatim>\<open>env->applyImplicitMessage(m)\<close> for the environment built on the tipset \<open>ts\<close>, and
  \<open>normalizeVMExitCode\<close> maps an exit code to its normal form, or to \<open>None\<close>. An error
  is a VM exit code (\<^verbatim>\<open>isVMExitCode\<close>) when it is of the exit-code category, that
  is a \<open>VMExitCodeError\<close>, and its \<^verbatim>\<open>value()\<close> is then the code.
\<close>

definition StateCall ::
  "Node \<Rightarrow> (Tipset \<Rightarrow> UnsignedMessage \<Rightarrow> error + bytes) \<Rightarrow> (int \<Rightarrow> int option)
     \<Rightarrow> UnsignedMessage \<Rightarrow> TipsetKey \<Rightarrow> error + InvocResult" where
  "StateCall n applyImplicitMessage normalizeVMExitCode m tipset_key =
     (case tipsetContext n tipset_key False of
        Inl e \<Rightarrow> Inl e
      | Inr context \<Rightarrow>
          (case applyImplicitMessage (tipset context) m of
             Inr v \<Rightarrow>
               Inr \<lparr>invoc_message = m,
                    receipt = \<lparr>exit_code = kOk, return_value = v, gas_used = 0\<rparr>\<rparr>
           | Inl err \<Rightarrow>
               (case err of
                  VMExitCodeError code \<Rightarrow>
                    (case normalizeVMExitCode code of
                       None \<Rightarrow> Inl ASSERTION_FAILED
                     | Some ret_code \<Rightarrow>
                         Inr \<lparr>invoc_message = m,
                              receipt = \<lparr>exit_code = ret_code, return_value = [],
                                         gas_used = 0\<rparr>\<rparr>)
                | _ \<Rightarrow> Inl err)))"

subsection \<open>Sectors for the winning proof\<close>

record SectorInfo =
  registered_proof :: nat
  sector :: nat
  sealed_cid :: CID

text \<open>
  What \<^verbatim>\<open>getSectorsForWinningPoSt\<close> reads of the miner's state: the sector size and
  the proving set, given as what \<^verbatim>\<open>visitProvingSet\<close> visits (sector number and sealed
  CID, in visiting order) or the error it stops with.
\<close>

record MinerActorState =
  sector_size :: nat
  provingSet :: "error + (nat \<times> CID) list"

text \<open>The functions of the proofs library, declared outside the sources at hand.\<close>

record Proofs =
  sealProofTypeFromSectorSize :: "nat \<Rightarrow> error + nat"
  getRegisteredWinningPoStProof :: "nat \<Rightarrow> error + nat"
  generateWinningPoStSectorChallenge :: "nat \<Rightarrow> nat \<Rightarrow> bytes \<Rightarrow> nat \<Rightarrow> error + nat list"

text \<open>
  The loop that fills the local \<^verbatim>\<open>result\<close> with \<^verbatim>\<open>sectors[i]\<close>; the read is
  unchecked.
\<close>

fun pick_sectors :: "SectorInfo list \<Rightarrow> nat list \<Rightarrow> SectorInfo list option" where
  "pick_sectors sectors [] = Some []"
| "pick_sectors sectors (i # indices) =
     (if i < length sectors
      then map_option ((#) (sectors ! i)) (pick_sectors sectors indices)
      else None)"

definition getSectorsForWinningPoSt ::
  "Proofs \<Rightarrow> nat \<Rightarrow> MinerActorState \<Rightarrow> bytes \<Rightarrow> error + SectorInfo list" where
  "getSectorsForWinningPoSt proofs miner_id state post_rand =
     (case sealProofTypeFromSectorSize proofs (sector_size state) of
        Inl e \<Rightarrow> Inl e
      | Inr seal_type \<Rightarrow>
     (case getRegisteredWinningPoStProof proofs seal_type of
        Inl e \<Rightarrow> Inl e
      | Inr win_type \<Rightarrow>
     (case provingSet state of
        Inl e \<Rightarrow> Inl e
      | Inr visited \<Rightarrow>
          (let sectors =
                 map (\<lambda>(id, sealed).
                        \<lparr>registered_proof = win_type, sector = id, sealed_cid = sealed\<rparr>)
                     visited
           in if sectors \<noteq> [] then
                (case generateWinningPoStSectorChallenge proofs win_type miner_id post_rand
                        (length sectors) of
                   Inl e \<Rightarrow> Inl e
                 | Inr indices \<Rightarrow>
                     (case pick_sectors sectors indices of
                        None \<Rightarrow> Inl OUT_OF_RANGE
                      | Some result \<Rightarrow> Inr sectors))
              else Inr sectors))))"

section \<open>The retrieval query responder\<close>

text \<open>
  The two enumerations are declared outside the sources at hand. Of the payload
  locations the code names \<open>IPLD_STORE\<close> only; \<open>SEALED_SECTOR\<close> is any other location.
\<close>

datatype PiecePayloadLocation = IPLD_STORE | SEALED_SECTOR

datatype QueryItemStatus = QueryItemAvailable | QueryItemUnavailable

text \<open>\<open>locatePiecePayload\<close> is the piece locator \<^verbatim>\<open>piece_io_->locatePiecePayload\<close>.\<close>

definition getItemStatus ::
  "(CID \<Rightarrow> error + PiecePayloadLocation \<times> CID) \<Rightarrow> CID \<Rightarrow> CID \<Rightarrow> QueryItemStatus" where
  "getItemStatus locatePiecePayload payload_cid piece_cid =
     (case locatePiecePayload payload_cid of
        Inl _ \<Rightarrow> QueryItemUnavailable
      | Inr result \<Rightarrow>
          if piece_cid \<noteq> payload_cid \<and> fst result \<noteq> IPLD_STORE
          then (if snd result \<noteq> piece_cid then QueryItemUnavailable
                else QueryItemAvailable)
          else QueryItemAvailable)"


section \<open>Example data\<close>

text \<open>
  Modelled from the spec: \<^verbatim>\<open>ticket::compare\<close> is declared outside the sources at hand;
  the spec orders tickets by byte comparison, negative when the first is smaller.
  It is used for the concrete examples only; the functions above take the comparison as
  a parameter.
\<close>

fun compare_bytes :: "bytes \<Rightarrow> bytes \<Rightarrow> int" where
  "compare_bytes [] [] = 0"
| "compare_bytes [] (y # ys) = - 1"
| "compare_bytes (x # xs) [] = 1"
| "compare_bytes (x # xs) (y # ys) =
     (if x < y then - 1 else if y < x then 1 else compare_bytes xs ys)"

text \<open>
  Stand-ins for the CID of a header and the hash of a key in the examples: a header is
  identified by its miner and height, a key by the concatenation of its CIDs.
\<close>

definition example_cid :: cid_fn where
  "example_cid hdr = Some [miner hdr, height hdr]"

definition example_hash :: hash_fn where
  "example_hash cs = Some (concat cs)"

definition example_header :: "nat \<Rightarrow> Ticket \<Rightarrow> CID list \<Rightarrow> nat \<Rightarrow> BlockHeader" where
  "example_header m t ps h =
     \<lparr>miner = m, ticket = Some t, parents = ps, parent_weight = 0, height = h,
      parent_state_root = [100, h], parent_message_receipts = [101, h],
      messages = [102, h], timestamp = 30 * h\<rparr>"

text \<open>Three sibling headers at height 10 with tickets \<open>0x01\<close>, \<open>0x02\<close> and \<open>0x03\<close>.\<close>

definition b1 :: BlockHeader where
  "b1 = example_header 1 [1] [[1, 7]] 10"

definition b2 :: BlockHeader where
  "b2 = example_header 2 [2] [[1, 7]] 10"

definition b3 :: BlockHeader where
  "b3 = example_header 3 [3] [[1, 7]] 10"

text \<open>A genesis header: no ticket and no parents.\<close>

definition example_genesis :: BlockHeader where
  "example_genesis = (example_header 0 [] [] 0)\<lparr>ticket := None\<rparr>"

text \<open>
  A chain of single-block tipsets at heights 10, 7, 5 and 2, each the parent of the one
  before; the block at height 2 has no parents.
\<close>

definition blk10 :: BlockHeader where
  "blk10 = example_header 1 [1] [[1, 7]] 10"

definition blk7 :: BlockHeader where
  "blk7 = example_header 1 [1] [[1, 5]] 7"

definition blk5 :: BlockHeader where
  "blk5 = example_header 1 [1] [[1, 2]] 5"

definition blk2 :: BlockHeader where
  "blk2 = example_header 1 [1] [] 2"

definition example_ipld :: block_store where
  "example_ipld cid =
     (if cid = [1, 10] then Inr blk10
      else if cid = [1, 7] then Inr blk7
      else if cid = [1, 5] then Inr blk5
      else if cid = [1, 2] then Inr blk2
      else Inl (OtherError 404))"

definition single :: "BlockHeader \<Rightarrow> Tipset" where
  "single b = \<lparr>key = \<lparr>cids = [[miner b, height b]], hash = [miner b, height b]\<rparr>, blks = [b]\<rparr>"

definition example_message :: UnsignedMessage where
  "example_message = \<lparr>msg_to = 1, msg_from = 2, nonce = 0, method_num = 0, params = []\<rparr>"

text \<open>
  The node of the examples. Its interpreter returns roots that name the height of the
  tipset; its store holds a signed message under \<open>[7]\<close> and an unsigned one under
  \<open>[8]\<close>.
\<close>

definition example_node :: Node where
  "example_node =
     \<lparr>ticket_compare = compare_bytes,
      getCidOfCbor = example_cid,
      tipsetHash = example_hash,
      getCbor_BlockHeader = example_ipld,
      getCbor_SignedMessage =
        (\<lambda>cid. if cid = [7] then Inr \<lparr>message = example_message, signature = [9, 9]\<rparr>
               else Inl (OtherError 1)),
      getCbor_UnsignedMessage =
        (\<lambda>cid. if cid = [8] then Inr (example_message\<lparr>nonce := 5\<rparr>)
               else Inl (OtherError 2)),
      heaviestTipset = single blk10,
      interpreter =
        (\<lambda>ts. Inr \<lparr>state_root = [200, Tipset_height ts],
                   message_receipts = [201, Tipset_height ts]\<rparr>)\<rparr>"

text \<open>
  A proofs library whose challenge picks index 1, and a miner with the two sectors 7 and
  8 in its proving set.
\<close>

definition example_proofs :: Proofs where
  "example_proofs =
     \<lparr>sealProofTypeFromSectorSize = (\<lambda>size. if size = 2048 then Inr 0 else Inl (OtherError 3)),
      getRegisteredWinningPoStProof = (\<lambda>seal_type. Inr (seal_type + 5)),
      generateWinningPoStSectorChallenge = (\<lambda>win_type miner_id post_rand n. Inr [1])\<rparr>"

definition example_miner_state :: MinerActorState where
  "example_miner_state = \<lparr>sector_size = 2048, provingSet = Inr [(7, [70]), (8, [80])]\<rparr>"

text \<open>The key of the tipset at height 10.\<close>

definition example_key :: TipsetKey where
  "example_key = \<lparr>cids = [[1, 10]], hash = [1, 10]\<rparr>"

text \<open>
  An environment that answers by the nonce of the message: a value, the exit code 16,
  or an error of another category; and a normalisation defined on the codes below 32.
\<close>

definition example_apply :: "Tipset \<Rightarrow> UnsignedMessage \<Rightarrow> error + bytes" where
  "example_apply ts m =
     (if nonce m = 0 then Inr [1, 2]
      else if nonce m = 1 then Inl (VMExitCodeError 16)
      else Inl (OtherError 77))"

definition example_normalize :: "int \<Rightarrow> int option" where
  "example_normalize code = (if 0 \<le> code \<and> code < 32 then Some code else None)"

section \<open>Properties of the tipset creator\<close>

lemma expand_scan_not_NoBlocks: "expand_scan cmp t bs idx \<noteq> Inl (TipsetErr NO_BLOCKS)"
  by (induction bs arbitrary: idx) (auto split: option.splits)

lemma expandTipset_not_NoBlocks: "expandTipset cmp cidOf c hdr \<noteq> Inl (TipsetErr NO_BLOCKS)"
  using expand_scan_not_NoBlocks [of cmp _ "creator_blks c" 0]
  by (auto simp: expandTipset_def expandTipset_cid_def split: option.splits sum.splits)

lemma canExpandTipset_not_NoBlocks: "canExpandTipset c hdr \<noteq> Inl (TipsetErr NO_BLOCKS)"
  by (auto simp: canExpandTipset_def split: list.splits)

lemma create_loop_not_NoBlocks: "create_loop cmp cidOf c hs \<noteq> Inl (TipsetErr NO_BLOCKS)"
proof (induction hs arbitrary: c)
  case Nil
  show ?case by simp
next
  case (Cons hdr rest)
  show ?case
    using canExpandTipset_not_NoBlocks [of c hdr] expandTipset_not_NoBlocks [of cmp cidOf c hdr]
      Cons.IH
    by (auto split: sum.splits)
qed

lemma getTipset_not_NoBlocks: "getTipset hashOf c clear \<noteq> Inl (TipsetErr NO_BLOCKS)"
  by (auto simp: getTipset_def TipsetKey_create_def split: option.splits)

lemma create_not_NoBlocks: "create cmp cidOf hashOf hs \<noteq> Inl (TipsetErr NO_BLOCKS)"
  using create_loop_not_NoBlocks [of cmp cidOf TipsetCreator_new hs] getTipset_not_NoBlocks
  by (auto simp: create_def split: sum.splits)

lemma set_insert_at: "set (insert_at idx x xs) = insert x (set xs)"
proof -
  have "set (take idx xs) \<union> set (drop idx xs) = set xs"
    by (metis append_take_drop_id set_append)
  then show ?thesis by (auto simp: insert_at_def)
qed

lemma expand_scan_ok:
  "\<forall>b\<in>set bs. \<exists>tb. ticket b = Some tb \<and> cmp t tb \<noteq> 0 \<Longrightarrow>
   \<exists>i. expand_scan cmp t bs idx = Inr i"
  by (induction bs arbitrary: idx) auto

lemma expandTipset_ok:
  assumes "cidOf hdr = Some cid" "ticket hdr = Some t"
    and "\<forall>b\<in>set (creator_blks c). \<exists>tb. ticket b = Some tb \<and> cmp t tb \<noteq> 0"
  shows "\<exists>c'. expandTipset cmp cidOf c hdr = Inr c'
            \<and> set (creator_blks c') = insert hdr (set (creator_blks c))"
proof -
  obtain i where "expand_scan cmp t (creator_blks c) 0 = Inr i"
    using expand_scan_ok [where cmp = cmp and t = t and bs = "creator_blks c" and idx = 0] assms(3)
    by blast
  then show ?thesis
    using assms(1,2) by (simp add: expandTipset_def expandTipset_cid_def set_insert_at)
qed

lemma canExpandTipset_ok:
  assumes "ticket hdr \<noteq> None" "height hdr = H" "parents hdr = P"
    and "\<forall>b\<in>set (creator_blks c). height b = H \<and> parents b = P"
  shows "canExpandTipset c hdr = Inr ()"
  using assms by (auto simp: canExpandTipset_def split: list.splits)

text \<open>
  The loop of \<open>create\<close> accepts every header of a list whose headers carry a CID and a
  ticket, agree on height and parents with each other and with the blocks already in the
  creator, and collide with no ticket; the creator then holds the old blocks and the new.
\<close>

lemma create_loop_ok:
  assumes "\<forall>x\<in>set hs. cidOf x \<noteq> None \<and> ticket x \<noteq> None \<and> height x = H \<and> parents x = P"
    and "\<forall>b\<in>set (creator_blks c). ticket b \<noteq> None \<and> height b = H \<and> parents b = P"
    and "\<forall>x\<in>set hs. \<forall>b\<in>set (creator_blks c).
           case (ticket x, ticket b) of (Some tx, Some tb) \<Rightarrow> cmp tx tb \<noteq> 0 | _ \<Rightarrow> True"
    and "distinct_tickets cmp hs"
  shows "\<exists>c'. create_loop cmp cidOf c hs = Inr c'
            \<and> set (creator_blks c') = set (creator_blks c) \<union> set hs"
  using assms
proof (induction hs arbitrary: c)
  case Nil
  show ?case by simp
next
  case (Cons hdr rest)
  from Cons.prems(1) obtain cid t where hdr: "cidOf hdr = Some cid" "ticket hdr = Some t"
    "height hdr = H" "parents hdr = P"
    by auto
  have can: "canExpandTipset c hdr = Inr ()"
    using canExpandTipset_ok [of hdr H P c] hdr Cons.prems(2) by simp
  have "\<forall>b\<in>set (creator_blks c). \<exists>tb. ticket b = Some tb \<and> cmp t tb \<noteq> 0"
  proof
    fix b assume b: "b \<in> set (creator_blks c)"
    with Cons.prems(2) obtain tb where tb: "ticket b = Some tb" by auto
    from Cons.prems(3) b have "case (ticket hdr, ticket b) of
        (Some tx, Some tb) \<Rightarrow> cmp tx tb \<noteq> 0 | _ \<Rightarrow> True"
      by simp
    with tb hdr(2) show "\<exists>tb. ticket b = Some tb \<and> cmp t tb \<noteq> 0" by simp
  qed
  with expandTipset_ok [where cmp = cmp and cidOf = cidOf and c = c and hdr = hdr
      and cid = cid and t = t] hdr(1,2)
  obtain c1 where c1: "expandTipset cmp cidOf c hdr = Inr c1"
    "set (creator_blks c1) = insert hdr (set (creator_blks c))"
    by blast
  have p1: "\<forall>x\<in>set rest. cidOf x \<noteq> None \<and> ticket x \<noteq> None \<and> height x = H \<and> parents x = P"
    using Cons.prems(1) by simp
  have p2: "\<forall>b\<in>set (creator_blks c1). ticket b \<noteq> None \<and> height b = H \<and> parents b = P"
    using Cons.prems(2) hdr c1(2) by auto
  have p3: "\<forall>x\<in>set rest. \<forall>b\<in>set (creator_blks c1).
           case (ticket x, ticket b) of (Some tx, Some tb) \<Rightarrow> cmp tx tb \<noteq> 0 | _ \<Rightarrow> True"
    using Cons.prems(3,4) c1(2) by auto
  have p4: "distinct_tickets cmp rest"
    using Cons.prems(4) by simp
  from Cons.IH [OF p1 p2 p3 p4]
  obtain c' where "create_loop cmp cidOf c1 rest = Inr c'"
    "set (creator_blks c') = set (creator_blks c1) \<union> set rest"
    by blast
  then show ?case
    using can c1 by auto
qed

lemma create_ok:
  assumes "hs \<noteq> []"
    and "\<forall>x\<in>set hs. cidOf x \<noteq> None \<and> ticket x \<noteq> None
           \<and> height x = height (hd hs) \<and> parents x = parents (hd hs)"
    and "distinct_tickets cmp hs"
    and "\<forall>cs. hashOf cs \<noteq> None"
  shows "\<exists>t. create cmp cidOf hashOf hs = Inr t \<and> blks t \<noteq> [] \<and> set (blks t) = set hs"
proof -
  from create_loop_ok [of hs cidOf "height (hd hs)" "parents (hd hs)" TipsetCreator_new cmp]
    assms(2,3)
  obtain c' where c': "create_loop cmp cidOf TipsetCreator_new hs = Inr c'"
    "set (creator_blks c') = set hs"
    by (auto simp: TipsetCreator_new_def)
  with assms(1) have ne: "creator_blks c' \<noteq> []" by auto
  from assms(4) obtain h where "hashOf (creator_cids c') = Some h" by auto
  with c' ne show ?thesis
    by (simp add: create_def getTipset_def TipsetKey_create_def)
qed

text \<open>
  What does hold of every tipset \<open>create\<close> returns: the key lists the CIDs of the
  blocks in block order, and the blocks share height and parents.
\<close>

lemma map_insert_at: "map f (insert_at idx x xs) = insert_at idx (f x) (map f xs)"
  by (simp add: insert_at_def take_map drop_map)

lemma creator_invI:
  assumes "map cidOf (creator_blks c) = map Some (creator_cids c)"
    and "\<forall>a\<in>set (creator_blks c). height a = H \<and> parents a = P"
  shows "creator_inv cidOf c"
  unfolding creator_inv_def using assms by simp

lemma expandTipset_cid_shape:
  assumes "expandTipset_cid cmp c cid hdr = Inr c'"
  shows "set (creator_blks c') = insert hdr (set (creator_blks c))
       \<and> (map cidOf (creator_blks c) = map Some (creator_cids c) \<longrightarrow> cidOf hdr = Some cid \<longrightarrow>
            map cidOf (creator_blks c') = map Some (creator_cids c'))"
proof (cases "creator_blks c = []")
  case True
  with assms have "c' = \<lparr>creator_blks = [hdr], creator_cids = [cid]\<rparr>"
    by (simp add: expandTipset_cid_def)
  with True show ?thesis by simp
next
  case False
  with assms obtain t where t: "ticket hdr = Some t"
    by (cases "ticket hdr") (simp_all add: expandTipset_cid_def)
  with assms False obtain idx where idx: "expand_scan cmp t (creator_blks c) 0 = Inr idx"
    by (cases "expand_scan cmp t (creator_blks c) 0") (simp_all add: expandTipset_cid_def)
  show ?thesis
  proof (cases "idx + 1 = length (creator_blks c)")
    case True
    with assms False t idx
    have "c' = \<lparr>creator_blks = creator_blks c @ [hdr], creator_cids = creator_cids c @ [cid]\<rparr>"
      by (simp add: expandTipset_cid_def)
    then show ?thesis by simp
  next
    case ne: False
    with assms False t idx
    have "c' = \<lparr>creator_blks = insert_at idx hdr (creator_blks c),
                 creator_cids = insert_at idx cid (creator_cids c)\<rparr>"
      by (simp add: expandTipset_cid_def)
    then show ?thesis by (simp add: set_insert_at map_insert_at)
  qed
qed

lemma expandTipset_inv:
  assumes "canExpandTipset c hdr = Inr ()"
    and "expandTipset cmp cidOf c hdr = Inr c'"
    and "creator_inv cidOf c"
  shows "creator_inv cidOf c'"
proof -
  from assms(2) obtain cid where cid: "cidOf hdr = Some cid"
    and e: "expandTipset_cid cmp c cid hdr = Inr c'"
    by (cases "cidOf hdr") (simp_all add: expandTipset_def)
  from assms(3) have m: "map cidOf (creator_blks c) = map Some (creator_cids c)"
    by (simp add: creator_inv_def)
  from expandTipset_cid_shape [OF e, of cidOf] m cid
  have s: "set (creator_blks c') = insert hdr (set (creator_blks c))"
    and m': "map cidOf (creator_blks c') = map Some (creator_cids c')"
    by simp_all
  have "\<forall>a\<in>set (creator_blks c). height a = height hdr \<and> parents a = parents hdr"
  proof (cases "creator_blks c")
    case Nil
    then show ?thesis by simp
  next
    case (Cons first_block rest)
    with assms(1) have same: "height hdr = height first_block"
      "parents hdr = parents first_block"
      by (simp_all add: canExpandTipset_def split: if_splits)
    from assms(3) Cons have "\<forall>b\<in>set (creator_blks c).
        height b = height first_block \<and> parents b = parents first_block"
      unfolding creator_inv_def by (metis list.set_intros(1))
    with same show ?thesis by simp
  qed
  with s have "\<forall>a\<in>set (creator_blks c'). height a = height hdr \<and> parents a = parents hdr"
    by simp
  with m' show ?thesis by (rule creator_invI)
qed

lemma create_loop_inv:
  assumes "create_loop cmp cidOf c hs = Inr c'" and "creator_inv cidOf c"
  shows "creator_inv cidOf c'"
  using assms
proof (induction hs arbitrary: c)
  case Nil
  then show ?case by simp
next
  case (Cons hdr rest)
  from Cons.prems(1) have can: "canExpandTipset c hdr = Inr ()"
    by (cases "canExpandTipset c hdr") simp_all
  with Cons.prems(1) obtain c1 where c1: "expandTipset cmp cidOf c hdr = Inr c1"
    "create_loop cmp cidOf c1 rest = Inr c'"
    by (cases "expandTipset cmp cidOf c hdr") simp_all
  from expandTipset_inv [OF can c1(1) Cons.prems(2)] have "creator_inv cidOf c1" .
  from Cons.IH [OF c1(2) this] show ?case .
qed

lemma create_shared_fields:
  assumes "create cmp cidOf hashOf hs = Inr t"
  shows "map cidOf (blks t) = map Some (cids (key t))
       \<and> (\<forall>a\<in>set (blks t). \<forall>b\<in>set (blks t). height a = height b \<and> parents a = parents b)"
proof -
  from assms obtain c where c: "create_loop cmp cidOf TipsetCreator_new hs = Inr c"
    "getTipset hashOf c True = Inr t"
    by (cases "create_loop cmp cidOf TipsetCreator_new hs") (simp_all add: create_def)
  have "creator_inv cidOf TipsetCreator_new"
    by (simp add: creator_inv_def TipsetCreator_new_def)
  from create_loop_inv [OF c(1) this] have inv: "creator_inv cidOf c" .
  show ?thesis
  proof (cases "creator_blks c = []")
    case True
    with c(2) have "t = Tipset_default"
      by (simp add: getTipset_def)
    then show ?thesis
      by (simp add: Tipset_default_def TipsetKey_default_def)
  next
    case False
    with c(2) obtain h where "hashOf (creator_cids c) = Some h"
      by (cases "hashOf (creator_cids c)") (simp_all add: getTipset_def TipsetKey_create_def)
    with c(2) False have "t = \<lparr>key = \<lparr>cids = creator_cids c, hash = h\<rparr>, blks = creator_blks c\<rparr>"
      by (simp add: getTipset_def TipsetKey_create_def)
    then have b: "blks t = creator_blks c" and k: "cids (key t) = creator_cids c"
      by simp_all
    show ?thesis
      unfolding b k using inv unfolding creator_inv_def .
  qed
qed

text \<open>
  Whatever the comparison, a creator holding one block appends the second: when the
  comparison is positive the loop stops at the only block, which is the last, and the
  code pushes back; when it is negative the loop runs off the end and the code inserts
  at the end. Two headers therefore come out in input order.
\<close>

lemma create_two_keeps_input_order:
  assumes "cidOf x = Some cx" "cidOf y = Some cy" "hashOf [cx, cy] = Some h"
    and "ticket x = Some tx" "ticket y = Some ty"
    and "height y = height x" "parents y = parents x"
    and "cmp ty tx \<noteq> 0"
  shows "create cmp cidOf hashOf [x, y] =
           Inr \<lparr>key = \<lparr>cids = [cx, cy], hash = h\<rparr>, blks = [x, y]\<rparr>"
  using assms
  by (simp add: create_def getTipset_def TipsetKey_create_def canExpandTipset_def
      expandTipset_def expandTipset_cid_def insert_at_def TipsetCreator_new_def)

text \<open>
  Claim C1. Every tipset built by \<^verbatim>\<open>Tipset::create\<close> has its blocks strictly ascending
  by ticket, and two headers with tickets \<open>0x01\<close> and \<open>0x02\<close> given in either order come
  out as \<open>[b1, b2]\<close>. The code does not do this. Given \<open>[b2, b1]\<close> it returns the blocks
  and the key in that order, although \<open>compare(0x02, 0x01)\<close> is positive; and given the
  three headers \<open>[b1, b2, b3]\<close>, already ascending, it puts \<open>b3\<close> first: the loop stops
  at the first block with a smaller ticket and the header is inserted in front of it.
\<close>

theorem create_not_sorted:
  "create compare_bytes example_cid example_hash [b2, b1] =
     Inr \<lparr>key = \<lparr>cids = [[2, 10], [1, 10]], hash = [2, 10, 1, 10]\<rparr>, blks = [b2, b1]\<rparr>
   \<and> ticket b2 = Some [2] \<and> ticket b1 = Some [1] \<and> compare_bytes [2] [1] = 1
   \<and> create compare_bytes example_cid example_hash [b1, b2, b3] =
       Inr \<lparr>key = \<lparr>cids = [[3, 10], [1, 10], [2, 10]], hash = [3, 10, 1, 10, 2, 10]\<rparr>,
            blks = [b3, b1, b2]\<rparr>
   \<and> ticket b3 = Some [3] \<and> compare_bytes [3] [1] = 1"
  by (simp add: create_def getTipset_def TipsetKey_create_def canExpandTipset_def
      expandTipset_def expandTipset_cid_def insert_at_def TipsetCreator_new_def
      example_cid_def example_hash_def example_header_def b1_def b2_def b3_def)

text \<open>
  Claim C4, as the claim states it: \<^verbatim>\<open>Tipset::create(headers)\<close> returns \<open>NO_BLOCKS\<close>
  exactly on the empty list and never an empty tipset. On the empty list the code
  succeeds, with the empty tipset.
\<close>

theorem create_empty_counterexample:
  "create compare_bytes example_cid example_hash [] = Inr Tipset_default
   \<and> blks Tipset_default = []"
  by (simp add: create_def getTipset_def TipsetCreator_new_def Tipset_default_def)

text \<open>
  A single header is accepted whether or not it has a ticket: the empty creator tests
  nothing, and the first insertion compares nothing.
\<close>

lemma create_single:
  assumes "cidOf hdr = Some cid" and "hashOf [cid] = Some k"
  shows "create cmp cidOf hashOf [hdr] = Inr \<lparr>key = \<lparr>cids = [cid], hash = k\<rparr>, blks = [hdr]\<rparr>"
  using assms
  by (simp add: create_def getTipset_def TipsetKey_create_def canExpandTipset_def
      expandTipset_def expandTipset_cid_def TipsetCreator_new_def)

lemma create_ok_genesis:
  assumes "hs \<noteq> []"
    and "\<forall>x\<in>set hs. cidOf x \<noteq> None
           \<and> height x = height (hd hs) \<and> parents x = parents (hd hs)"
    and "tl hs \<noteq> [] \<longrightarrow> (\<forall>x\<in>set hs. ticket x \<noteq> None)"
    and "distinct_tickets cmp hs"
    and "\<forall>cs. hashOf cs \<noteq> None"
  shows "\<exists>t. create cmp cidOf hashOf hs = Inr t \<and> blks t \<noteq> [] \<and> set (blks t) = set hs"
proof (cases "tl hs = []")
  case True
  with assms(1) obtain hdr where hs: "hs = [hdr]"
    by (cases hs) auto
  with assms(2) obtain cid where cid: "cidOf hdr = Some cid" by auto
  from assms(5) obtain k where k: "hashOf [cid] = Some k" by auto
  from create_single [where cidOf = cidOf and hashOf = hashOf and hdr = hdr and cid = cid
      and k = k and cmp = cmp] cid k hs
  show ?thesis by simp
next
  case False
  with assms(2,3) have "\<forall>x\<in>set hs. cidOf x \<noteq> None \<and> ticket x \<noteq> None
           \<and> height x = height (hd hs) \<and> parents x = parents (hd hs)"
    by simp
  with create_ok [where hs = hs and cidOf = cidOf and cmp = cmp and hashOf = hashOf]
    assms(1,4,5)
  show ?thesis by blast
qed

text \<open>
  \<^verbatim>\<open>Tipset::create(hash, blocks)\<close> runs the loop of \<open>create\<close> on the headers before
  the first absent block, and returns \<open>NO_BLOCKS\<close> exactly when that loop accepts them
  all and an absent block follows.
\<close>

lemma create_available_loop_prefix:
  "create_available_loop cmp cidOf c (map Some pre @ bs) =
     (case create_loop cmp cidOf c pre of
        Inl e \<Rightarrow> Inl e
      | Inr c' \<Rightarrow> create_available_loop cmp cidOf c' bs)"
  by (induction pre arbitrary: c) (simp_all split: sum.splits)

lemma create_available_loop_NoBlocks:
  assumes "create_available_loop cmp cidOf c bs = Inl (TipsetErr NO_BLOCKS)"
  shows "\<exists>pre rest c'. bs = map Some pre @ None # rest \<and> create_loop cmp cidOf c pre = Inr c'"
  using assms
proof (induction bs arbitrary: c)
  case Nil
  then show ?case by simp
next
  case (Cons b bs)
  show ?case
  proof (cases b)
    case None
    have "b # bs = map Some [] @ None # bs \<and> create_loop cmp cidOf c [] = Inr c"
      using None by simp
    then show ?thesis by blast
  next
    case (Some hdr)
    from Cons.prems Some canExpandTipset_not_NoBlocks [of c hdr]
    have can: "canExpandTipset c hdr = Inr ()"
      by (cases "canExpandTipset c hdr") simp_all
    from Cons.prems Some can expandTipset_not_NoBlocks [of cmp cidOf c hdr]
    obtain c1 where c1: "expandTipset cmp cidOf c hdr = Inr c1"
      by (cases "expandTipset cmp cidOf c hdr") simp_all
    from Cons.prems Some can c1
    have "create_available_loop cmp cidOf c1 bs = Inl (TipsetErr NO_BLOCKS)"
      by simp
    from Cons.IH [OF this] obtain pre rest c' where
      p: "bs = map Some pre @ None # rest" "create_loop cmp cidOf c1 pre = Inr c'"
      by blast
    have "b # bs = map Some (hdr # pre) @ None # rest
            \<and> create_loop cmp cidOf c (hdr # pre) = Inr c'"
      using Some p can c1 by simp
    then show ?thesis by blast
  qed
qed

lemma create_available_NoBlocks_iff:
  "create_available cmp cidOf hashOf h bs = Inl (TipsetErr NO_BLOCKS)
     \<longleftrightarrow> (\<exists>pre rest c. bs = map Some pre @ None # rest
            \<and> create_loop cmp cidOf TipsetCreator_new pre = Inr c)"
proof
  assume a: "create_available cmp cidOf hashOf h bs = Inl (TipsetErr NO_BLOCKS)"
  have "create_available_loop cmp cidOf TipsetCreator_new bs = Inl (TipsetErr NO_BLOCKS)"
  proof (cases "create_available_loop cmp cidOf TipsetCreator_new bs")
    case (Inl e)
    with a show ?thesis by (simp add: create_available_def)
  next
    case (Inr c)
    with a getTipset_not_NoBlocks [of hashOf c True] show ?thesis
      by (cases "getTipset hashOf c True") (simp_all add: create_available_def split: if_splits)
  qed
  from create_available_loop_NoBlocks [OF this]
  show "\<exists>pre rest c. bs = map Some pre @ None # rest
            \<and> create_loop cmp cidOf TipsetCreator_new pre = Inr c" .
next
  assume "\<exists>pre rest c. bs = map Some pre @ None # rest
            \<and> create_loop cmp cidOf TipsetCreator_new pre = Inr c"
  then obtain pre rest c where "bs = map Some pre @ None # rest"
    "create_loop cmp cidOf TipsetCreator_new pre = Inr c"
    by blast
  then show "create_available cmp cidOf hashOf h bs = Inl (TipsetErr NO_BLOCKS)"
    by (simp add: create_available_def create_available_loop_prefix)
qed

text \<open>
  Claim C4, amended. \<^verbatim>\<open>Tipset::create(headers)\<close> never returns \<open>NO_BLOCKS\<close>. On the
  empty list it succeeds and returns the empty tipset. On a non-empty list whose headers
  all have a CID, share height and parents and have pairwise distinct tickets, and all
  have a ticket unless the list is a single header (the genesis header has none), with the
  key's hash computable, it succeeds and returns a non-empty tipset made of the given
  headers. \<open>NO_BLOCKS\<close> is what \<^verbatim>\<open>Tipset::create(hash, blocks)\<close> returns, exactly when it
  reaches an absent block: the headers before the first absent block are all accepted.
\<close>

theorem create_never_NoBlocks:
  "create cmp cidOf hashOf [] = Inr Tipset_default
   \<and> create cmp cidOf hashOf hs \<noteq> Inl (TipsetErr NO_BLOCKS)
   \<and> (hs \<noteq> []
        \<and> (\<forall>x\<in>set hs. cidOf x \<noteq> None
              \<and> height x = height (hd hs) \<and> parents x = parents (hd hs))
        \<and> (tl hs \<noteq> [] \<longrightarrow> (\<forall>x\<in>set hs. ticket x \<noteq> None))
        \<and> distinct_tickets cmp hs \<and> (\<forall>cs. hashOf cs \<noteq> None)
      \<longrightarrow> (\<exists>t. create cmp cidOf hashOf hs = Inr t \<and> blks t \<noteq> [] \<and> set (blks t) = set hs))
   \<and> (create_available cmp cidOf hashOf h bs = Inl (TipsetErr NO_BLOCKS)
        \<longleftrightarrow> (\<exists>pre rest c. bs = map Some pre @ None # rest
               \<and> create_loop cmp cidOf TipsetCreator_new pre = Inr c))"
proof -
  have a: "create cmp cidOf hashOf [] = Inr Tipset_default"
    by (simp add: create_def getTipset_def TipsetCreator_new_def)
  show ?thesis
    using a create_not_NoBlocks [of cmp cidOf hashOf hs] create_ok_genesis [of hs cidOf cmp hashOf]
      create_available_NoBlocks_iff [of cmp cidOf hashOf h bs]
    by blast
qed

theorem create_never_NoBlocks_witness:
  "create compare_bytes example_cid example_hash [] = Inr Tipset_default
   \<and> (\<exists>t. create compare_bytes example_cid example_hash [b1, b2] = Inr t
          \<and> blks t \<noteq> [] \<and> set (blks t) = {b1, b2})
   \<and> ticket example_genesis = None
   \<and> (\<exists>t. create compare_bytes example_cid example_hash [example_genesis] = Inr t
          \<and> blks t \<noteq> [] \<and> set (blks t) = {example_genesis})
   \<and> create_available compare_bytes example_cid example_hash [] [Some b1, None]
        = Inl (TipsetErr NO_BLOCKS)"
proof -
  have v: "[b1, b2] \<noteq> []
        \<and> (\<forall>x\<in>set [b1, b2]. example_cid x \<noteq> None
              \<and> height x = height (hd [b1, b2]) \<and> parents x = parents (hd [b1, b2]))
        \<and> (tl [b1, b2] \<noteq> [] \<longrightarrow> (\<forall>x\<in>set [b1, b2]. ticket x \<noteq> None))
        \<and> distinct_tickets compare_bytes [b1, b2] \<and> (\<forall>cs. example_hash cs \<noteq> None)"
    by (simp add: b1_def b2_def example_header_def example_cid_def example_hash_def)
  have g: "[example_genesis] \<noteq> []
        \<and> (\<forall>x\<in>set [example_genesis]. example_cid x \<noteq> None
              \<and> height x = height (hd [example_genesis])
              \<and> parents x = parents (hd [example_genesis]))
        \<and> (tl [example_genesis] \<noteq> [] \<longrightarrow> (\<forall>x\<in>set [example_genesis]. ticket x \<noteq> None))
        \<and> distinct_tickets compare_bytes [example_genesis]
        \<and> (\<forall>cs. example_hash cs \<noteq> None)"
    by (simp add: example_cid_def example_hash_def)
  have n: "ticket example_genesis = None"
    by (simp add: example_genesis_def)
  have "[Some b1, None] = map Some [b1] @ None # []
          \<and> create_loop compare_bytes example_cid TipsetCreator_new [b1]
              = Inr \<lparr>creator_blks = [b1], creator_cids = [[1, 10]]\<rparr>"
    by (simp add: canExpandTipset_def expandTipset_def expandTipset_cid_def
        TipsetCreator_new_def example_cid_def b1_def example_header_def)
  then have p: "\<exists>pre rest c. [Some b1, None] = map Some pre @ None # rest
      \<and> create_loop compare_bytes example_cid TipsetCreator_new pre = Inr c"
    by blast
  have a: "create compare_bytes example_cid example_hash [] = Inr Tipset_default
   \<and> (\<exists>t. create compare_bytes example_cid example_hash [b1, b2] = Inr t
          \<and> blks t \<noteq> [] \<and> set (blks t) = {b1, b2})"
    using v create_never_NoBlocks [of compare_bytes example_cid example_hash "[b1, b2]"]
    by auto
  have b: "\<exists>t. create compare_bytes example_cid example_hash [example_genesis] = Inr t
          \<and> blks t \<noteq> [] \<and> set (blks t) = {example_genesis}"
    using g create_never_NoBlocks [of compare_bytes example_cid example_hash "[example_genesis]"]
    by auto
  have c: "create_available compare_bytes example_cid example_hash [] [Some b1, None]
        = Inl (TipsetErr NO_BLOCKS)"
    using p create_never_NoBlocks [of compare_bytes example_cid example_hash _ "[]"
        "[Some b1, None]"]
    by blast
  from a b c n show ?thesis by blast
qed

text \<open>
  Claim C9. On the empty tipset \<^verbatim>\<open>height()\<close>, \<^verbatim>\<open>getMinTimestamp()\<close> and
  \<^verbatim>\<open>getParentWeight()\<close> return 0 and \<^verbatim>\<open>getParents()\<close> returns the empty key.
  \<^verbatim>\<open>getParentStateRoot()\<close>, \<^verbatim>\<open>getParentMessageReceipts()\<close> and
  \<^verbatim>\<open>getMinTicketBlock()\<close> read \<^verbatim>\<open>blks[0]\<close> without a guard: they have a value
  exactly when the tipset has a block, and the value is then taken from the first block.
\<close>

theorem empty_tipset_accessors:
  "Tipset_height \<lparr>key = k, blks = []\<rparr> = 0
   \<and> getMinTimestamp \<lparr>key = k, blks = []\<rparr> = 0
   \<and> getParentWeight \<lparr>key = k, blks = []\<rparr> = 0
   \<and> getParents hashOf \<lparr>key = k, blks = []\<rparr> = Inr TipsetKey_default
   \<and> cids TipsetKey_default = []
   \<and> (getParentStateRoot t \<noteq> None) = (blks t \<noteq> [])
   \<and> (getParentMessageReceipts t \<noteq> None) = (blks t \<noteq> [])
   \<and> (getMinTicketBlock t \<noteq> None) = (blks t \<noteq> [])
   \<and> getParentStateRoot \<lparr>key = k, blks = b # bs\<rparr> = Some (parent_state_root b)
   \<and> getParentMessageReceipts \<lparr>key = k, blks = b # bs\<rparr> = Some (parent_message_receipts b)
   \<and> getMinTicketBlock \<lparr>key = k, blks = b # bs\<rparr> = Some b"
  by (simp add: Tipset_height_def getMinTimestamp_def getParentWeight_def getParents_def
      TipsetKey_default_def getParentStateRoot_def getParentMessageReceipts_def
      getMinTicketBlock_def split: list.split)

section \<open>Properties of the node API\<close>

text \<open>
  Claim C10. \<^verbatim>\<open>ChainGetMessage\<close> first reads the CID as a signed message and, when
  that succeeds, returns its inner unsigned message; only when it fails does it read the
  CID as an unsigned message. The result is an unsigned message by type, and the handler
  fails exactly when both reads fail.
\<close>

theorem ChainGetMessage_signed_first:
  "(getCbor_SignedMessage n cid = Inr sm \<longrightarrow> ChainGetMessage n cid = Inr (message sm))
   \<and> (isl (getCbor_SignedMessage n cid) \<longrightarrow>
        ChainGetMessage n cid = getCbor_UnsignedMessage n cid)
   \<and> (isl (ChainGetMessage n cid) \<longleftrightarrow>
        isl (getCbor_SignedMessage n cid) \<and> isl (getCbor_UnsignedMessage n cid))"
  by (cases "getCbor_SignedMessage n cid") (auto simp: ChainGetMessage_def)

theorem ChainGetMessage_signed_first_witness:
  "ChainGetMessage example_node [7] = Inr example_message
   \<and> ChainGetMessage example_node [8] = Inr (example_message\<lparr>nonce := 5\<rparr>)
   \<and> isl (ChainGetMessage example_node [9])"
proof -
  have a: "ChainGetMessage example_node [7] = Inr example_message"
    using ChainGetMessage_signed_first
      [of example_node "[7]" "\<lparr>message = example_message, signature = [9, 9]\<rparr>"]
    by (simp add: example_node_def)
  have b: "ChainGetMessage example_node [8] = Inr (example_message\<lparr>nonce := 5\<rparr>)"
    using ChainGetMessage_signed_first [of example_node "[8]"]
    by (simp add: example_node_def)
  have c: "isl (ChainGetMessage example_node [9])"
    using ChainGetMessage_signed_first [of example_node "[9]"]
    by (simp add: example_node_def)
  from a b c show ?thesis by simp
qed

text \<open>
  Claim C2. With a non-empty proving set \<^verbatim>\<open>getSectorsForWinningPoSt\<close> should return
  the sectors at the challenged indices. The code gathers them in the local
  \<^verbatim>\<open>result\<close> and returns \<^verbatim>\<open>sectors\<close>: with sectors 7 and 8 in the proving set and
  the challenge \<open>[1]\<close>, the sector picked is 8 and both are returned.
\<close>

theorem getSectorsForWinningPoSt_returns_all:
  "getSectorsForWinningPoSt example_proofs 1000 example_miner_state [4, 2] =
     Inr [\<lparr>registered_proof = 5, sector = 7, sealed_cid = [70]\<rparr>,
          \<lparr>registered_proof = 5, sector = 8, sealed_cid = [80]\<rparr>]
   \<and> generateWinningPoStSectorChallenge example_proofs 5 1000 [4, 2] 2 = Inr [1]
   \<and> pick_sectors [\<lparr>registered_proof = 5, sector = 7, sealed_cid = [70]\<rparr>,
                   \<lparr>registered_proof = 5, sector = 8, sealed_cid = [80]\<rparr>] [1] =
       Some [\<lparr>registered_proof = 5, sector = 8, sealed_cid = [80]\<rparr>]"
  by (simp add: getSectorsForWinningPoSt_def example_proofs_def example_miner_state_def)

text \<open>
  More generally, whenever the function succeeds it returns one sector for every entry
  of the proving set, in visiting order, whatever the challenge.
\<close>

lemma getSectorsForWinningPoSt_full_list:
  assumes "getSectorsForWinningPoSt proofs miner_id state post_rand = Inr out"
  shows "\<exists>visited. provingSet state = Inr visited \<and> map sector out = map fst visited
           \<and> map sealed_cid out = map snd visited"
  using assms
  by (auto simp: getSectorsForWinningPoSt_def Let_def comp_def case_prod_unfold
      split: sum.splits if_splits option.splits)

subsection \<open>The example chain\<close>

lemmas example_defs = Tipset_loadParent_def loadParent_def load_def create_def getTipset_def
  TipsetKey_create_def canExpandTipset_def expandTipset_def expandTipset_cid_def
  TipsetCreator_new_def example_node_def example_ipld_def example_cid_def example_hash_def
  example_header_def single_def blk10_def blk7_def blk5_def blk2_def Tipset_height_def

lemma loadParent_blk10: "Tipset_loadParent example_node (single blk10) = Inr (single blk7)"
  by (simp add: example_defs)

lemma loadParent_blk7: "Tipset_loadParent example_node (single blk7) = Inr (single blk5)"
  by (simp add: example_defs)

lemma loadParent_blk5: "Tipset_loadParent example_node (single blk5) = Inr (single blk2)"
  by (simp add: example_defs)

lemma example_heights:
  "Tipset_height (single blk10) = 10" "Tipset_height (single blk7) = 7"
  "Tipset_height (single blk5) = 5" "Tipset_height (single blk2) = 2"
  by (simp_all add: single_def blk10_def blk7_def blk5_def blk2_def example_header_def
      Tipset_height_def)

lemma example_interpreter:
  "interpreter example_node ts =
     Inr \<lparr>state_root = [200, Tipset_height ts], message_receipts = [201, Tipset_height ts]\<rparr>"
  by (simp add: example_node_def)

lemma tipsetContext_example_key:
  "tipsetContext example_node example_key False =
     Inr \<lparr>tipset = single blk10, state_tree = [100, 10], interpreted = None\<rparr>"
  by (simp add: tipsetContext_def example_key_def Tipset_load_def load_def create_def
      getTipset_def TipsetKey_create_def canExpandTipset_def expandTipset_def
      expandTipset_cid_def TipsetCreator_new_def example_node_def example_ipld_def
      example_cid_def example_hash_def example_header_def single_def blk10_def
      getParentStateRoot_def)

lemma tipsetContext_example_key_interpreted:
  "tipsetContext example_node example_key True =
     Inr \<lparr>tipset = single blk10, state_tree = [200, 10],
          interpreted = Some \<lparr>state_root = [200, 10], message_receipts = [201, 10]\<rparr>\<rparr>"
  by (simp add: tipsetContext_def example_key_def Tipset_load_def load_def create_def
      getTipset_def TipsetKey_create_def canExpandTipset_def expandTipset_def
      expandTipset_cid_def TipsetCreator_new_def example_node_def example_ipld_def
      example_cid_def example_hash_def example_header_def single_def blk10_def
      getParentStateRoot_def Tipset_height_def)

lemma to_uint64_id: "0 \<le> x \<Longrightarrow> x < 2 ^ 63 \<Longrightarrow> to_uint64 x = nat x"
  by (simp add: to_uint64_def)

lemma to_int64_id: "- (2 ^ 63) \<le> x \<Longrightarrow> x < 2 ^ 63 \<Longrightarrow> to_int64 x = x"
  by (simp add: to_int64_def)

text \<open>Below \<open>- (2 ^ 63) + 10\<close> the subtraction of the lookback wraps.\<close>

lemma to_int64_wraps: "to_int64 (- (2 ^ 63) - 10) = 2 ^ 63 - 10"
  by (simp add: to_int64_def)

subsection \<open>The lookback for mining\<close>

text \<open>
  Along a parent chain the loop of \<^verbatim>\<open>getLookbackTipSetForRound\<close> returns, and what it
  returns is the first tipset of the chain at or below the lookback height.
\<close>

lemma lookback_walk_chain:
  assumes "parent_chain n (ts # ancestors)"
    and "find (\<lambda>t. Tipset_height t \<le> lb) (ts # ancestors) = Some t'"
  shows "lookback_walk n lb ts = Some (Inr t')"
  using assms
proof (induction ancestors arbitrary: ts)
  case Nil
  then show ?case
    using lookback_walk.simps [of n lb ts] by (simp split: if_splits)
next
  case (Cons p rest)
  show ?case
  proof (cases "Tipset_height ts \<le> lb")
    case True
    with Cons.prems(2) show ?thesis
      using lookback_walk.simps [of n lb ts] by simp
  next
    case False
    with Cons.prems have "Tipset_loadParent n ts = Inr p" "parent_chain n (p # rest)"
      "find (\<lambda>t. Tipset_height t \<le> lb) (p # rest) = Some t'"
      by simp_all
    with Cons.IH [of p] False show ?thesis
      using lookback_walk.simps [of n lb ts] by simp
  qed
qed

text \<open>
  Claim C5. \<^verbatim>\<open>getLookbackTipSetForRound(tipset, epoch)\<close> returns the first tipset,
  starting from the given one and following parent links, whose height is at most
  \<open>max 0 (epoch - 10)\<close>, with its state tree rooted at the state root the interpreter
  produces for that tipset. The parent links up to that tipset are loadable from the
  store and the interpreter succeeds on it; otherwise the error is returned. The epoch
  is a signed 64-bit value from which 10 can be subtracted without overflow.
\<close>

theorem getLookbackTipSetForRound_first_ancestor:
  assumes "- (2 ^ 63) + 10 \<le> epoch" and "epoch < 2 ^ 63"
    and "parent_chain n (ts # ancestors)"
    and "find (\<lambda>t. int (Tipset_height t) \<le> max 0 (epoch - 10)) (ts # ancestors) = Some t'"
    and "interpreter n t' = Inr result"
  shows "getLookbackTipSetForRound n ts epoch =
           Some (Inr \<lparr>tipset = t', state_tree = state_root result, interpreted = None\<rparr>)"
proof -
  let ?lb = "max 0 (to_int64 (epoch - kWinningPoStSectorSetLookback))"
  have sub: "to_int64 (epoch - kWinningPoStSectorSetLookback) = epoch - 10"
    using assms(1,2) to_int64_id [of "epoch - 10"]
    by (simp add: kWinningPoStSectorSetLookback_def)
  have lb: "to_uint64 ?lb = nat ?lb"
    using assms(2) unfolding sub by (intro to_uint64_id) auto
  have "(\<lambda>t. int (Tipset_height t) \<le> max 0 (epoch - 10)) = (\<lambda>t. Tipset_height t \<le> nat ?lb)"
    unfolding sub by auto
  with assms(4) have "find (\<lambda>t. Tipset_height t \<le> nat ?lb) (ts # ancestors) = Some t'"
    by simp
  from lookback_walk_chain [OF assms(3) this]
  have "lookback_walk n (to_uint64 ?lb) ts = Some (Inr t')"
    using lb by simp
  with assms(5) show ?thesis
    by (simp add: getLookbackTipSetForRound_def Let_def)
qed

theorem getLookbackTipSetForRound_first_ancestor_witness:
  "getLookbackTipSetForRound example_node (single blk10) 15 =
     Some (Inr \<lparr>tipset = single blk5, state_tree = [200, 5], interpreted = None\<rparr>)"
proof -
  have a0: "- (2 ^ 63) + 10 \<le> (15::int)" by simp
  have a: "(15::int) < 2 ^ 63" by simp
  have b: "parent_chain example_node [single blk10, single blk7, single blk5]"
    by (simp add: loadParent_blk10 loadParent_blk7)
  have c: "find (\<lambda>t. int (Tipset_height t) \<le> max 0 (15 - 10))
             [single blk10, single blk7, single blk5] = Some (single blk5)"
    by (simp add: example_heights)
  have d: "interpreter example_node (single blk5)
             = Inr \<lparr>state_root = [200, 5], message_receipts = [201, 5]\<rparr>"
    by (simp add: example_interpreter example_heights)
  show ?thesis
    using getLookbackTipSetForRound_first_ancestor [OF a0 a b c d] by simp
qed

subsection \<open>Tipset contexts\<close>

lemma lookback_context_shape:
  assumes "getLookbackTipSetForRound n ts epoch = Some (Inr c)"
  shows "interpreted c = None
       \<and> (\<exists>r. interpreter n (tipset c) = Inr r \<and> state_tree c = state_root r)"
  using assms
  by (auto simp: getLookbackTipSetForRound_def Let_def split: option.splits sum.splits)

lemma tipsetContext_shape:
  assumes "tipsetContext n tipset_key interp = Inr c"
  shows "(interpreted c \<noteq> None \<longleftrightarrow> interp)
       \<and> (interp \<longrightarrow> (\<exists>r. interpreter n (tipset c) = Inr r \<and> interpreted c = Some r
                          \<and> state_tree c = state_root r))
       \<and> (\<not> interp \<longrightarrow> getParentStateRoot (tipset c) = Some (state_tree c))"
  using assms
  by (auto simp: tipsetContext_def split: option.splits sum.splits if_splits)

text \<open>
  Claim C7, as the claim states it: in every context the core produces, also those of
  the mining lookback, \<open>interpreted\<close> is present exactly when the state tree is rooted
  at the interpreter's state root. The lookback context for epoch 17 from the tipset at
  height 10 is the tipset at height 7 with the state tree at the interpreter's root
  \<open>[200, 7]\<close>, which is not the parent state root \<open>[100, 7]\<close>, and \<open>interpreted\<close> is
  absent.
\<close>

theorem lookback_context_counterexample:
  "getLookbackTipSetForRound example_node (single blk10) 17 =
     Some (Inr \<lparr>tipset = single blk7, state_tree = [200, 7], interpreted = None\<rparr>)
   \<and> interpreter example_node (single blk7)
        = Inr \<lparr>state_root = [200, 7], message_receipts = [201, 7]\<rparr>
   \<and> getParentStateRoot (single blk7) = Some [100, 7]"
proof -
  have w7: "lookback_walk example_node 7 (single blk7) = Some (Inr (single blk7))"
    using lookback_walk.simps [of example_node 7 "single blk7"]
    by (simp add: example_heights)
  have w10: "lookback_walk example_node 7 (single blk10) = Some (Inr (single blk7))"
    using lookback_walk.simps [of example_node 7 "single blk10"] loadParent_blk10 w7
    by (simp add: example_heights)
  have u: "to_uint64 7 = 7" "to_int64 7 = 7" by (simp_all add: to_uint64_def to_int64_def)
  have d: "interpreter example_node (single blk7)
             = Inr \<lparr>state_root = [200, 7], message_receipts = [201, 7]\<rparr>"
    by (simp add: example_interpreter example_heights)
  have g: "getParentStateRoot (single blk7) = Some [100, 7]"
    by (simp add: getParentStateRoot_def single_def blk7_def example_header_def)
  show ?thesis
    using w10 u d g
    by (simp add: getLookbackTipSetForRound_def kWinningPoStSectorSetLookback_def)
qed

text \<open>
  Claim C7, amended. In a context produced by \<^verbatim>\<open>tipsetContext\<close>, \<open>interpreted\<close> is
  present if and only if interpretation was asked for; the state tree is then rooted at
  the state root of the interpreter's result, which \<open>interpreted\<close> holds, and otherwise
  at the parent state root of the tipset. A context produced by
  \<^verbatim>\<open>getLookbackTipSetForRound\<close> has its state tree rooted at the interpreter's state root
  and \<open>interpreted\<close> absent.
\<close>

theorem context_interpreted:
  "(tipsetContext n tipset_key interp = Inr c \<longrightarrow>
      (interpreted c \<noteq> None \<longleftrightarrow> interp)
       \<and> (interp \<longrightarrow> (\<exists>r. interpreter n (tipset c) = Inr r \<and> interpreted c = Some r
                          \<and> state_tree c = state_root r))
       \<and> (\<not> interp \<longrightarrow> getParentStateRoot (tipset c) = Some (state_tree c)))
   \<and> (getLookbackTipSetForRound n ts epoch = Some (Inr c') \<longrightarrow>
        interpreted c' = None
        \<and> (\<exists>r. interpreter n (tipset c') = Inr r \<and> state_tree c' = state_root r))"
  using tipsetContext_shape [of n tipset_key interp c] lookback_context_shape [of n ts epoch c']
  by blast

theorem context_interpreted_witness:
  "interpreted (projr (tipsetContext example_node example_key True)) \<noteq> None
   \<and> interpreted (projr (tipsetContext example_node example_key False)) = None
   \<and> getParentStateRoot (tipset (projr (tipsetContext example_node example_key False)))
       = Some (state_tree (projr (tipsetContext example_node example_key False)))
   \<and> interpreted (projr (the (getLookbackTipSetForRound example_node (single blk7) 17))) = None"
proof -
  have w7: "lookback_walk example_node 7 (single blk7) = Some (Inr (single blk7))"
    using lookback_walk.simps [of example_node 7 "single blk7"]
    by (simp add: example_heights)
  have u: "to_uint64 7 = 7" "to_int64 7 = 7" by (simp_all add: to_uint64_def to_int64_def)
  have l: "getLookbackTipSetForRound example_node (single blk7) 17 =
     Some (Inr \<lparr>tipset = single blk7, state_tree = [200, 7], interpreted = None\<rparr>)"
    using w7 u
    by (simp add: getLookbackTipSetForRound_def kWinningPoStSectorSetLookback_def
        example_interpreter example_heights)
  have a: "interpreted (projr (tipsetContext example_node example_key True)) \<noteq> None"
    using context_interpreted [of example_node example_key True
        "projr (tipsetContext example_node example_key True)"]
      tipsetContext_example_key_interpreted
    by simp
  have b: "interpreted (projr (tipsetContext example_node example_key False)) = None
       \<and> getParentStateRoot (tipset (projr (tipsetContext example_node example_key False)))
           = Some (state_tree (projr (tipsetContext example_node example_key False)))"
    using context_interpreted [of example_node example_key False
        "projr (tipsetContext example_node example_key False)"]
      tipsetContext_example_key
    by simp
  have c: "interpreted (projr (the (getLookbackTipSetForRound example_node (single blk7) 17)))
             = None"
    using context_interpreted [of example_node _ _ _ "single blk7" 17
        "projr (the (getLookbackTipSetForRound example_node (single blk7) 17))"] l
    by simp
  from a b c show ?thesis by simp
qed

subsection \<open>Tipset by height\<close>

text \<open>
  Along a parent chain with strictly decreasing heights that reaches the target height
  or below, the loop of \<^verbatim>\<open>ChainGetTipSetByHeight\<close> returns, and what it returns is the
  last tipset of the chain at or above the target.
\<close>

lemma height_walk_chain:
  assumes "parent_chain n (ts # ancestors)"
    and "sorted_wrt (\<lambda>a b. Tipset_height b < Tipset_height a) (ts # ancestors)"
    and "h \<le> Tipset_height ts"
    and "\<exists>t\<in>set (ts # ancestors). Tipset_height t \<le> h"
  shows "height_walk n h ts =
           Some (Inr (last (filter (\<lambda>t. h \<le> Tipset_height t) (ts # ancestors))))"
  using assms
proof (induction ancestors arbitrary: ts)
  case Nil
  then have "Tipset_height ts = h" by simp
  then show ?case
    using height_walk.simps [of n h ts] by simp
next
  case (Cons p rest)
  have below: "\<forall>t\<in>set (p # rest). Tipset_height t < Tipset_height ts"
    using Cons.prems(2) by simp
  show ?case
  proof (cases "Tipset_height ts = h")
    case True
    with below have "filter (\<lambda>t. h \<le> Tipset_height t) (p # rest) = []"
      by (auto simp: filter_empty_conv)
    with True show ?thesis
      using height_walk.simps [of n h ts] by simp
  next
    case False
    with Cons.prems(3) have gt: "h < Tipset_height ts" by simp
    from Cons.prems(1) have lp: "Tipset_loadParent n ts = Inr p"
      and chain: "parent_chain n (p # rest)"
      by simp_all
    from Cons.prems(2)
    have sorted: "sorted_wrt (\<lambda>a b. Tipset_height b < Tipset_height a) (p # rest)"
      by simp
    show ?thesis
    proof (cases "Tipset_height p < h")
      case True
      with sorted have "\<forall>t\<in>set (p # rest). Tipset_height t < h"
        by auto
      then have "filter (\<lambda>t. h \<le> Tipset_height t) (p # rest) = []"
        by (auto simp: filter_empty_conv)
      with gt lp True show ?thesis
        using height_walk.simps [of n h ts] by simp
    next
      case False
      then have hp: "h \<le> Tipset_height p" by simp
      from Cons.prems(4) gt have ex: "\<exists>t\<in>set (p # rest). Tipset_height t \<le> h"
        by auto
      from Cons.IH [OF chain sorted hp ex]
      have "height_walk n h p =
              Some (Inr (last (filter (\<lambda>t. h \<le> Tipset_height t) (p # rest))))" .
      with gt lp hp show ?thesis
        using height_walk.simps [of n h ts] by simp
    qed
  qed
qed

text \<open>
  Claim C3. \<^verbatim>\<open>ChainGetTipSetByHeight(target, key)\<close>, once the key is resolved: when the
  height of the resolved tipset is strictly below the target the result is
  \<open>TodoError\<close>; otherwise, along the chain of parents (heights strictly decreasing,
  reaching the target or below), the result is the last tipset whose height is at least
  the target. The target is the request's value cast to \<^verbatim>\<open>uint64_t\<close>, which is the
  value itself when it is not negative. For the chain of heights 10, 7, 5, 2 a request
  for 6 gives the tipset at height 7 and a request for 11 gives \<open>TodoError\<close>.
\<close>

theorem ChainGetTipSetByHeight_walk:
  assumes "tipsetContext n tipset_key False = Inr context"
  shows "(Tipset_height (tipset context) < to_uint64 height2 \<longrightarrow>
            ChainGetTipSetByHeight n height2 tipset_key = Some (Inl TodoError))
       \<and> (to_uint64 height2 \<le> Tipset_height (tipset context)
            \<and> parent_chain n (tipset context # ancestors)
            \<and> sorted_wrt (\<lambda>a b. Tipset_height b < Tipset_height a) (tipset context # ancestors)
            \<and> (\<exists>t\<in>set (tipset context # ancestors). Tipset_height t \<le> to_uint64 height2)
          \<longrightarrow> ChainGetTipSetByHeight n height2 tipset_key =
                Some (Inr (last (filter (\<lambda>t. to_uint64 height2 \<le> Tipset_height t)
                                        (tipset context # ancestors)))))
       \<and> (0 \<le> height2 \<and> height2 < 2 ^ 63 \<longrightarrow> int (to_uint64 height2) = height2)"
proof -
  have a: "Tipset_height (tipset context) < to_uint64 height2 \<longrightarrow>
            ChainGetTipSetByHeight n height2 tipset_key = Some (Inl TodoError)"
    using assms by (simp add: ChainGetTipSetByHeight_def Let_def)
  have b: "to_uint64 height2 \<le> Tipset_height (tipset context)
            \<and> parent_chain n (tipset context # ancestors)
            \<and> sorted_wrt (\<lambda>a b. Tipset_height b < Tipset_height a) (tipset context # ancestors)
            \<and> (\<exists>t\<in>set (tipset context # ancestors). Tipset_height t \<le> to_uint64 height2)
          \<longrightarrow> ChainGetTipSetByHeight n height2 tipset_key =
                Some (Inr (last (filter (\<lambda>t. to_uint64 height2 \<le> Tipset_height t)
                                        (tipset context # ancestors))))"
  proof
    assume h: "to_uint64 height2 \<le> Tipset_height (tipset context)
            \<and> parent_chain n (tipset context # ancestors)
            \<and> sorted_wrt (\<lambda>a b. Tipset_height b < Tipset_height a) (tipset context # ancestors)
            \<and> (\<exists>t\<in>set (tipset context # ancestors). Tipset_height t \<le> to_uint64 height2)"
    then have "height_walk n (to_uint64 height2) (tipset context) =
                Some (Inr (last (filter (\<lambda>t. to_uint64 height2 \<le> Tipset_height t)
                                        (tipset context # ancestors))))"
      using height_walk_chain [of n "tipset context" ancestors "to_uint64 height2"] by blast
    with h assms show "ChainGetTipSetByHeight n height2 tipset_key =
                Some (Inr (last (filter (\<lambda>t. to_uint64 height2 \<le> Tipset_height t)
                                        (tipset context # ancestors))))"
      by (simp add: ChainGetTipSetByHeight_def Let_def)
  qed
  have c: "0 \<le> height2 \<and> height2 < 2 ^ 63 \<longrightarrow> int (to_uint64 height2) = height2"
    by (simp add: to_uint64_def)
  from a b c show ?thesis by blast
qed

theorem ChainGetTipSetByHeight_walk_witness:
  "ChainGetTipSetByHeight example_node 6 example_key = Some (Inr (single blk7))
   \<and> ChainGetTipSetByHeight example_node 11 example_key = Some (Inl TodoError)"
proof -
  have u: "to_uint64 6 = 6" "to_uint64 11 = 11" by (simp_all add: to_uint64_def)
  have chain: "parent_chain example_node [single blk10, single blk7, single blk5, single blk2]"
    by (simp add: loadParent_blk10 loadParent_blk7 loadParent_blk5)
  have a: "ChainGetTipSetByHeight example_node 6 example_key = Some (Inr (single blk7))"
    using ChainGetTipSetByHeight_walk [OF tipsetContext_example_key, of 6
        "[single blk7, single blk5, single blk2]"] chain
    by (simp add: u example_heights)
  have b: "ChainGetTipSetByHeight example_node 11 example_key = Some (Inl TodoError)"
    using ChainGetTipSetByHeight_walk [OF tipsetContext_example_key, of 11 "[]"]
    by (simp add: u example_heights)
  from a b show ?thesis by simp
qed

subsection \<open>StateCall\<close>

text \<open>
  Claim C6. \<^verbatim>\<open>StateCall(message, key)\<close>: when the implicit application of the message
  succeeds the receipt is exit code \<open>Ok\<close>, the returned value and gas 0; when it fails
  with a VM exit code the receipt is the normalised code, an empty return value and gas
  0 (the code asserts that the normalisation is defined); every other failure, of the
  application or of resolving the key, is returned to the caller as it is.
\<close>

theorem StateCall_receipt:
  "(tipsetContext n tipset_key False = Inl e \<longrightarrow>
      StateCall n applyImplicitMessage normalizeVMExitCode m tipset_key = Inl e)
   \<and> (tipsetContext n tipset_key False = Inr context \<longrightarrow>
        (applyImplicitMessage (tipset context) m = Inr v \<longrightarrow>
           StateCall n applyImplicitMessage normalizeVMExitCode m tipset_key =
             Inr \<lparr>invoc_message = m,
                  receipt = \<lparr>exit_code = kOk, return_value = v, gas_used = 0\<rparr>\<rparr>)
      \<and> (applyImplicitMessage (tipset context) m = Inl (VMExitCodeError code)
           \<and> normalizeVMExitCode code = Some ret_code \<longrightarrow>
           StateCall n applyImplicitMessage normalizeVMExitCode m tipset_key =
             Inr \<lparr>invoc_message = m,
                  receipt = \<lparr>exit_code = ret_code, return_value = [], gas_used = 0\<rparr>\<rparr>)
      \<and> (applyImplicitMessage (tipset context) m = Inl err
           \<and> (\<forall>code. err \<noteq> VMExitCodeError code) \<longrightarrow>
           StateCall n applyImplicitMessage normalizeVMExitCode m tipset_key = Inl err))"
  by (auto simp: StateCall_def split: error.splits)

theorem StateCall_receipt_witness:
  "StateCall example_node example_apply example_normalize example_message example_key =
     Inr \<lparr>invoc_message = example_message,
          receipt = \<lparr>exit_code = 0, return_value = [1, 2], gas_used = 0\<rparr>\<rparr>
   \<and> StateCall example_node example_apply example_normalize
        (example_message\<lparr>nonce := 1\<rparr>) example_key =
     Inr \<lparr>invoc_message = example_message\<lparr>nonce := 1\<rparr>,
          receipt = \<lparr>exit_code = 16, return_value = [], gas_used = 0\<rparr>\<rparr>
   \<and> StateCall example_node example_apply example_normalize
        (example_message\<lparr>nonce := 2\<rparr>) example_key = Inl (OtherError 77)
   \<and> StateCall example_node example_apply example_normalize example_message
        \<lparr>cids = [[9, 9]], hash = []\<rparr> = Inl (OtherError 404)"
proof -
  have a: "StateCall example_node example_apply example_normalize example_message example_key =
     Inr \<lparr>invoc_message = example_message,
          receipt = \<lparr>exit_code = 0, return_value = [1, 2], gas_used = 0\<rparr>\<rparr>"
    using StateCall_receipt [of example_node example_key _ example_apply example_normalize
        example_message _ "[1, 2]"] tipsetContext_example_key
    by (simp add: example_apply_def example_message_def kOk_def)
  have b: "StateCall example_node example_apply example_normalize
        (example_message\<lparr>nonce := 1\<rparr>) example_key =
     Inr \<lparr>invoc_message = example_message\<lparr>nonce := 1\<rparr>,
          receipt = \<lparr>exit_code = 16, return_value = [], gas_used = 0\<rparr>\<rparr>"
    using StateCall_receipt [of example_node example_key _ example_apply example_normalize
        "example_message\<lparr>nonce := 1\<rparr>" _ _ 16 16] tipsetContext_example_key
    by (simp add: example_apply_def example_normalize_def example_message_def)
  have c: "StateCall example_node example_apply example_normalize
        (example_message\<lparr>nonce := 2\<rparr>) example_key = Inl (OtherError 77)"
    using StateCall_receipt [of example_node example_key _ example_apply example_normalize
        "example_message\<lparr>nonce := 2\<rparr>" _ _ _ _ "OtherError 77"] tipsetContext_example_key
    by (simp add: example_apply_def example_message_def)
  have k: "tipsetContext example_node \<lparr>cids = [[9, 9]], hash = []\<rparr> False
             = Inl (OtherError 404)"
    by (simp add: tipsetContext_def Tipset_load_def load_def example_node_def example_ipld_def)
  have d: "StateCall example_node example_apply example_normalize example_message
        \<lparr>cids = [[9, 9]], hash = []\<rparr> = Inl (OtherError 404)"
    using StateCall_receipt [of example_node "\<lparr>cids = [[9, 9]], hash = []\<rparr>" "OtherError 404"
        example_apply example_normalize example_message] k
    by simp
  from a b c d show ?thesis by simp
qed

section \<open>Properties of the retrieval query responder\<close>

text \<open>
  Claim C8, as the claim states it: the status is \<open>Available\<close> only if a piece CID that
  differs from the payload CID equals the parent piece the locator reports. For a
  payload found in the IPLD store the code does not compare the pieces: the piece
  \<open>[3]\<close> differs from the payload \<open>[1]\<close> and from the parent \<open>[2]\<close>, and the status is
  \<open>Available\<close>.
\<close>

theorem getItemStatus_ipld_store_counterexample:
  "getItemStatus (\<lambda>c. Inr (IPLD_STORE, [2])) [1] [3] = QueryItemAvailable
   \<and> ([3]::CID) \<noteq> [1] \<and> ([2]::CID) \<noteq> [3]"
  by (simp add: getItemStatus_def)

text \<open>
  Claim C8, amended. The status is \<open>Available\<close> if and only if the payload CID is
  locatable and, whenever the piece CID differs from the payload CID and the payload is
  located elsewhere than in the IPLD store, the piece CID equals the parent piece the
  locator reports; otherwise the status is \<open>Unavailable\<close>.
\<close>

theorem getItemStatus_available_iff:
  "(getItemStatus locatePiecePayload payload_cid piece_cid = QueryItemAvailable
      \<longleftrightarrow> (\<exists>location parent. locatePiecePayload payload_cid = Inr (location, parent)
             \<and> (piece_cid \<noteq> payload_cid \<and> location \<noteq> IPLD_STORE \<longrightarrow> parent = piece_cid)))
   \<and> (getItemStatus locatePiecePayload payload_cid piece_cid = QueryItemUnavailable
      \<longleftrightarrow> getItemStatus locatePiecePayload payload_cid piece_cid \<noteq> QueryItemAvailable)"
  by (cases "locatePiecePayload payload_cid") (auto simp: getItemStatus_def)

theorem getItemStatus_available_iff_witness:
  "getItemStatus (\<lambda>c. Inr (SEALED_SECTOR, [3])) [1] [3] = QueryItemAvailable
   \<and> getItemStatus (\<lambda>c. Inr (SEALED_SECTOR, [2])) [1] [3] = QueryItemUnavailable
   \<and> getItemStatus (\<lambda>c. Inl (OtherError 404)) [1] [1] = QueryItemUnavailable"
proof -
  have a: "getItemStatus (\<lambda>c. Inr (SEALED_SECTOR, [3])) [1] [3] = QueryItemAvailable"
    using getItemStatus_available_iff [of "\<lambda>c. Inr (SEALED_SECTOR, [3])" "[1]" "[3]"] by simp
  have b: "getItemStatus (\<lambda>c. Inr (SEALED_SECTOR, [2])) [1] [3] = QueryItemUnavailable"
    using getItemStatus_available_iff [of "\<lambda>c. Inr (SEALED_SECTOR, [2])" "[1]" "[3]"] by simp
  have c: "getItemStatus (\<lambda>c. Inl (OtherError 404)) [1] [1] = QueryItemUnavailable"
    using getItemStatus_available_iff [of "\<lambda>c. Inl (OtherError 404)" "[1]" "[1]"] by simp
  from a b c show ?thesis by simp
qed

end
